theory Spec2Isabelle
  imports Complex_Main "HOL-Library.Word" "HOL-Library.Monad_Syntax"
begin

section \<open>Button event dispatcher (Core/Src/eventHandler.c)\<close>

text \<open>
  The two globals of the file are the dispatcher's state. Both are \<open>uint32_t\<close>, so
  they are 32-bit words and \<open>cur_time - prev_time\<close> wraps around. A global without
  an initialiser (\<open>cur_time\<close>) starts at zero. The value \<open>HAL_GetTick()\<close> returns is
  an argument of the handler, and the calls of \<open>osEventFlagsSet\<close> a handler makes are
  returned as a list of (event group, flags) pairs.
\<close>

type_synonym uint32_t = "32 word"

datatype event_group = setPointButtonEvents | stateMachineEvents

record dispatcher =
  prev_time :: uint32_t
  cur_time :: uint32_t

definition dispatcher_init :: dispatcher where
  "dispatcher_init = \<lparr>prev_time = 0, cur_time = 0\<rparr>"

definition setpointButtons :: "dispatcher \<Rightarrow> dispatcher \<times> (event_group \<times> uint32_t) list" where
  "setpointButtons g = (g, [(setPointButtonEvents, 0x50)])"

definition modeChangeButton ::
  "uint32_t \<Rightarrow> dispatcher \<Rightarrow> dispatcher \<times> (event_group \<times> uint32_t) list" where
  "modeChangeButton HAL_GetTick g =
     (let g1 = g\<lparr>cur_time := HAL_GetTick\<rparr>;
          raised = (if cur_time g1 - prev_time g1 > 300
                    then [(stateMachineEvents, 0x69)] else [])
      in (g1\<lparr>prev_time := cur_time g1\<rparr>, raised))"

section \<open>PID controller (Core/Src/PID.cpp), instantiated at \<open>T = int\<close>\<close>

text \<open>
  The platform is an STM32L4 (the dispatcher includes \<open>stm32l4xx_hal.h\<close>), so \<open>int\<close>
  and \<open>long\<close> are 32-bit two's complement and \<open>unsigned long\<close> is a 32-bit word.
  A value of type \<open>int\<close> is an integer between \<open>INT_MIN\<close> and \<open>INT_MAX\<close>. Signed
  arithmetic whose result leaves that range, division by zero and the conversion of an
  out-of-range \<open>double\<close> to \<open>int\<close> are undefined behaviour in C++: the model returns
  \<open>None\<close> there, and \<open>Some\<close> of the result everywhere else. Unsigned arithmetic
  wraps around.

  The gains are \<open>double\<close>, and line 152 computes in \<open>double\<close>: IEEE 754 binary64
  with the default rounding (to nearest, ties to even), every product and every sum
  rounded on its own. The floating-point model below follows that.
\<close>

definition INT_MIN :: int where
  "INT_MIN = - 2147483648"

definition INT_MAX :: int where
  "INT_MAX = 2147483647"

text \<open>The result of a signed operation: defined only when it is representable.\<close>

definition int_result :: "int \<Rightarrow> int option" where
  "int_result x = (if INT_MIN \<le> x \<and> x \<le> INT_MAX then Some x else None)"

text \<open>The \<open>/\<close> of C++ on integers truncates towards zero; a zero divisor is undefined.\<close>

definition int_div :: "int \<Rightarrow> int \<Rightarrow> int option" where
  "int_div a b =
     (if b = 0 then None
      else int_result (if (a < 0) = (b < 0) then \<bar>a\<bar> div \<bar>b\<bar> else - (\<bar>a\<bar> div \<bar>b\<bar>)))"

text \<open>
  The conversion \<open>(int) x\<close> of a floating-point value discards the fractional part,
  and is undefined when the result is not representable.
\<close>

definition truncation :: "real \<Rightarrow> int" where
  "truncation x = (if 0 \<le> x then \<lfloor>x\<rfloor> else \<lceil>x\<rceil>)"

subsection \<open>Floating-point values\<close>

text \<open>
  A value of a binary floating-point type is a finite number or one of the infinities
  and NaNs, which are all \<open>NonFinite\<close> here (the sign of a zero is not kept: it has no
  effect on a sum, a product or a conversion to \<open>int\<close> of finite values). A sum or
  product with an infinity or NaN among its operands is an infinity or a NaN again, and
  converting one to \<open>int\<close> is undefined.
\<close>

datatype floating = Finite real | NonFinite

text \<open>The number of binary digits of a positive integer (0 for the others).\<close>

function bit_length :: "int \<Rightarrow> int" where
  "bit_length a = (if a \<le> 0 then 0 else bit_length (a div 2) + 1)"
  by pat_completeness auto
termination
  by (relation "measure nat") auto

declare bit_length.simps [simp del]

definition pow2 :: "int \<Rightarrow> real" where
  "pow2 n = (if 0 \<le> n then 2 ^ nat n else 1 / 2 ^ nat (- n))"

text \<open>
  The binary exponent of a non-zero number: the \<open>e\<close> with
  \<open>2 ^ e \<le> \<bar>x\<bar> < 2 ^ (e + 1)\<close> (lemma \<open>binade_bounds\<close>).
\<close>

definition binade :: "real \<Rightarrow> int" where
  "binade x =
     (if 1 \<le> \<bar>x\<bar> then bit_length \<lfloor>\<bar>x\<bar>\<rfloor> - 1 else - bit_length (\<lceil>1 / \<bar>x\<bar>\<rceil> - 1))"

text \<open>The nearest integer, the even one of the two when they are equally near.\<close>

definition round_half_even :: "real \<Rightarrow> int" where
  "round_half_even q =
     (let f = \<lfloor>q\<rfloor>; r = q - of_int f
      in if r < 1/2 then f else if 1/2 < r then f + 1 else if even f then f else f + 1)"

text \<open>
  Rounding to a binary format with \<open>prec\<close> significant bits and normal exponents from
  \<open>emin\<close> to \<open>emax\<close>: to the nearest multiple of the unit in the last place of the
  number's binade (of the lowest binade for a subnormal number), ties to the even
  multiple; a result of magnitude \<open>2 ^ (emax + 1)\<close> or more is an infinity.
\<close>

definition round_floating :: "int \<Rightarrow> int \<Rightarrow> int \<Rightarrow> real \<Rightarrow> floating" where
  "round_floating prec emin emax x =
     (if x = 0 then Finite 0
      else
        (let e = max (binade x) emin;
             ulp = pow2 (e - (prec - 1));
             y = of_int (round_half_even (x / ulp)) * ulp
         in if \<bar>y\<bar> < pow2 (emax + 1) then Finite y else NonFinite))"

text \<open>binary64 and binary32.\<close>

definition round_double :: "real \<Rightarrow> floating" where
  "round_double = round_floating 53 (- 1022) 1023"

definition round_float :: "real \<Rightarrow> floating" where
  "round_float = round_floating 24 (- 126) 127"

fun double_mul :: "floating \<Rightarrow> floating \<Rightarrow> floating" where
  "double_mul (Finite a) (Finite b) = round_double (a * b)"
| "double_mul _ _ = NonFinite"

fun double_add :: "floating \<Rightarrow> floating \<Rightarrow> floating" where
  "double_add (Finite a) (Finite b) = round_double (a + b)"
| "double_add _ _ = NonFinite"

fun float_add :: "floating \<Rightarrow> floating \<Rightarrow> floating" where
  "float_add (Finite a) (Finite b) = round_float (a + b)"
| "float_add _ _ = NonFinite"

fun float_sub :: "floating \<Rightarrow> floating \<Rightarrow> floating" where
  "float_sub (Finite a) (Finite b) = round_float (a - b)"
| "float_sub _ _ = NonFinite"

text \<open>A 32-bit \<open>int\<close> is a \<open>double\<close> exactly; as a \<open>float\<close> it is rounded.\<close>

definition int_to_double :: "int \<Rightarrow> floating" where
  "int_to_double n = Finite (of_int n)"

definition int_to_float :: "int \<Rightarrow> floating" where
  "int_to_float n = round_float (of_int n)"

fun floating_to_int :: "floating \<Rightarrow> int option" where
  "floating_to_int (Finite x) = int_result (truncation x)"
| "floating_to_int NonFinite = None"

text \<open>
  A function pointer is known by the identity of the function it points to. What the
  callbacks return when \<open>tick\<close> calls them is an argument of \<open>tick\<close>.
\<close>

type_synonym funptr = nat

record PIDController =
  pGain :: floating
  iGain :: floating
  dGain :: floating
  target :: int
  "output" :: int
  enabled :: bool
  currentFeedback :: int
  lastFeedback :: int
  error :: int
  lastError :: int
  currentTime :: uint32_t
  lastTime :: uint32_t
  integralCumulation :: int
  maxCumulation :: int
  cycleDerivative :: int
  inputBounded :: bool
  inputLowerBound :: int
  inputUpperBound :: int
  outputBounded :: bool
  outputLowerBound :: int
  outputUpperBound :: int
  feedbackWrapped :: bool
  feedbackWrapLowerBound :: int
  feedbackWrapUpperBound :: int
  timeFunctionRegistered :: bool
  pidSource :: funptr
  pidOutput :: funptr
  getSystemTime :: funptr

text \<open>
  The fields \<open>pGain\<close>, \<open>iGain\<close>, \<open>dGain\<close>, \<open>pidSource\<close>, \<open>pidOutput\<close> and
  \<open>getSystemTime\<close> are the members \<open>_p\<close>, \<open>_i\<close>, \<open>_d\<close>, \<open>_pidSource\<close>,
  \<open>_pidOutput\<close> and \<open>_getSystemTime\<close>.

  The constructor assigns every member but the two wrap bounds and \<open>_getSystemTime\<close>.
  Their contents after construction are indeterminate: the last three arguments of
  the model's constructor stand for whatever they hold.
\<close>

definition PIDController_new ::
  "floating \<Rightarrow> floating \<Rightarrow> floating \<Rightarrow> funptr \<Rightarrow> funptr \<Rightarrow> int \<Rightarrow> int \<Rightarrow> funptr
     \<Rightarrow> PIDController" where
  "PIDController_new p i d src out wrapLo wrapHi timeFn =
     \<lparr> pGain = p, iGain = i, dGain = d,
       target = 0, output = 0, enabled = True,
       currentFeedback = 0, lastFeedback = 0,
       error = 0, lastError = 0,
       currentTime = 0, lastTime = 0,
       integralCumulation = 0, maxCumulation = 30000, cycleDerivative = 0,
       inputBounded = False, inputLowerBound = 0, inputUpperBound = 0,
       outputBounded = False, outputLowerBound = 0, outputUpperBound = 0,
       feedbackWrapped = False,
       feedbackWrapLowerBound = wrapLo, feedbackWrapUpperBound = wrapHi,
       timeFunctionRegistered = False,
       pidSource = src, pidOutput = out, getSystemTime = timeFn \<rparr>"

subsection \<open>The steps of \<open>tick\<close>\<close>

text \<open>Lines 62 to 66: the feedback trimmed to the input bounds.\<close>

definition boundInput :: "PIDController \<Rightarrow> int \<Rightarrow> int" where
  "boundInput s fb =
     (if inputBounded s then
        (let c1 = (if fb > inputUpperBound s then inputUpperBound s else fb)
         in if c1 < inputLowerBound s then inputLowerBound s else c1)
      else fb)"

text \<open>
  Lines 100 to 111: the chain of comparisons. \<open>None\<close> when no branch is taken, in
  which case \<open>error\<close> is not assigned.
\<close>

definition selectError :: "int \<Rightarrow> int \<Rightarrow> int \<Rightarrow> int \<Rightarrow> int option" where
  "selectError regErr regErrAbs altErr1Abs altErr2Abs =
     (if regErrAbs \<le> altErr1Abs \<and> regErr \<le> altErr2Abs then Some regErr
      else if altErr1Abs < regErrAbs \<and> altErr1Abs < altErr2Abs then Some altErr1Abs
      else if altErr2Abs < regErrAbs \<and> altErr2Abs < altErr1Abs then Some altErr2Abs
      else None)"

text \<open>\<open>(x >= 0) ? x : -x\<close>\<close>

definition int_abs :: "int \<Rightarrow> int option" where
  "int_abs x = (if x \<ge> 0 then Some x else int_result (- x))"

text \<open>Lines 90 to 111: the error of a tick with feedback wrapping.\<close>

definition wrappedError :: "int \<Rightarrow> int \<Rightarrow> int \<Rightarrow> int \<Rightarrow> int \<Rightarrow> int option" where
  "wrappedError tgt cf wrapLo wrapHi oldError = do {
     regErr \<leftarrow> int_result (tgt - cf);
     a1 \<leftarrow> int_result (tgt - wrapLo);
     b1 \<leftarrow> int_result (wrapHi - cf);
     altErr1 \<leftarrow> int_result (a1 + b1);
     a2 \<leftarrow> int_result (wrapHi - tgt);
     b2 \<leftarrow> int_result (cf - wrapLo);
     altErr2 \<leftarrow> int_result (a2 + b2);
     regErrAbs \<leftarrow> int_abs regErr;
     altErr1Abs \<leftarrow> int_abs altErr1;
     altErr2Abs \<leftarrow> int_abs altErr2;
     Some (case selectError regErr regErrAbs altErr1Abs altErr2Abs of
             Some e \<Rightarrow> e
           | None \<Rightarrow> oldError)
   }"

text \<open>Lines 72 to 117.\<close>

definition computeError :: "PIDController \<Rightarrow> int \<Rightarrow> int option" where
  "computeError s cf =
     (if feedbackWrapped s
      then wrappedError (target s) cf (feedbackWrapLowerBound s) (feedbackWrapUpperBound s)
             (error s)
      else int_result (target s - cf))"

text \<open>
  Lines 120 to 145: the new \<open>integralCumulation\<close> (before it is capped), the new
  \<open>cycleDerivative\<close>, \<open>currentTime\<close> and \<open>lastTime\<close>. \<open>now\<close> is what
  \<open>_getSystemTime()\<close> returns. \<open>deltaTime\<close> is the difference of two
  \<open>unsigned long\<close> converted to \<open>long\<close>.
\<close>

definition integrate ::
  "PIDController \<Rightarrow> int \<Rightarrow> uint32_t \<Rightarrow> (int \<times> int \<times> uint32_t \<times> uint32_t) option" where
  "integrate s err now =
     (if timeFunctionRegistered s then do {
        let deltaTime = sint (now - lastTime s);
        half \<leftarrow> int_div err 2;
        weighted \<leftarrow> int_result (lastError s + half);
        cycleIntegral \<leftarrow> int_result (weighted * deltaTime);
        cumulation \<leftarrow> int_result (integralCumulation s + cycleIntegral);
        rise \<leftarrow> int_result (err - lastError s);
        derivative \<leftarrow> int_div rise deltaTime;
        Some (cumulation, derivative, now, now)
      }
      else do {
        cumulation \<leftarrow> int_result (integralCumulation s + err);
        derivative \<leftarrow> int_result (err - lastError s);
        Some (cumulation, derivative, currentTime s, lastTime s)
      })"

text \<open>Lines 148 and 149.\<close>

definition capCumulation :: "PIDController \<Rightarrow> int \<Rightarrow> int option" where
  "capCumulation s cumulation = do {
     let c1 = (if cumulation > maxCumulation s then maxCumulation s else cumulation);
     negMax \<leftarrow> int_result (- maxCumulation s);
     Some (if c1 < negMax then negMax else c1)
   }"

text \<open>
  Line 152: the value assigned to \<open>output\<close>. Each of \<open>error\<close>,
  \<open>integralCumulation\<close> and \<open>cycleDerivative\<close> is converted to \<open>double\<close> for its
  product with a gain; the sum is taken from left to right and converted to \<open>int\<close>.
\<close>

definition weightedSum ::
  "floating \<Rightarrow> floating \<Rightarrow> floating \<Rightarrow> floating \<Rightarrow> floating \<Rightarrow> floating \<Rightarrow> floating" where
  "weightedSum err p cumulation i derivative d =
     double_add (double_add (double_mul err p) (double_mul cumulation i))
       (double_mul derivative d)"

definition computeOutput :: "PIDController \<Rightarrow> int \<Rightarrow> int \<Rightarrow> int \<Rightarrow> int option" where
  "computeOutput s err cumulation derivative =
     floating_to_int
       (weightedSum (int_to_double err) (pGain s) (int_to_double cumulation) (iGain s)
          (int_to_double derivative) (dGain s))"

text \<open>Lines 159 to 163: the output trimmed to the output bounds.\<close>

definition boundOutput :: "PIDController \<Rightarrow> int \<Rightarrow> int" where
  "boundOutput s out =
     (if outputBounded s then
        (let o1 = (if out > outputUpperBound s then outputUpperBound s else out)
         in if o1 < outputLowerBound s then outputLowerBound s else o1)
      else out)"

subsection \<open>\<open>tick\<close>\<close>

text \<open>
  \<open>feedback\<close> is what \<open>_pidSource()\<close> returns and \<open>now\<close> what \<open>_getSystemTime()\<close>
  returns (read only when a time function is registered). The result is the state
  after the tick and the values handed to \<open>_pidOutput\<close>, in order.
\<close>

definition tick :: "PIDController \<Rightarrow> int \<Rightarrow> uint32_t \<Rightarrow> (PIDController \<times> int list) option" where
  "tick s feedback now =
     (if enabled s then do {
        let cf = boundInput s feedback;
        err \<leftarrow> computeError s cf;
        (cumulation, derivative, cur, last) \<leftarrow> integrate s err now;
        capped \<leftarrow> capCumulation s cumulation;
        raw \<leftarrow> computeOutput s err capped derivative;
        let out = boundOutput s raw;
        Some (s\<lparr> currentFeedback := cf, error := err,
                 currentTime := cur, lastTime := last,
                 integralCumulation := capped, cycleDerivative := derivative,
                 output := out, lastFeedback := cf, lastError := err \<rparr>,
              [out])
      }
      else Some (s, []))"

subsection \<open>The other operations\<close>

definition setTarget :: "int \<Rightarrow> PIDController \<Rightarrow> PIDController" where
  "setTarget t s = s\<lparr>target := t\<rparr>"

definition setEnabled :: "bool \<Rightarrow> PIDController \<Rightarrow> PIDController" where
  "setEnabled e s =
     (let s1 = (if \<not> e \<and> enabled s then s\<lparr>output := 0, integralCumulation := 0\<rparr> else s)
      in s1\<lparr>enabled := e\<rparr>)"

definition setMaxIntegralCumulation :: "int \<Rightarrow> PIDController \<Rightarrow> PIDController option" where
  "setMaxIntegralCumulation max0 s = do {
     max1 \<leftarrow> (if max0 < 0 then int_result (- max0) else Some max0);
     Some (if max1 > 1 then s\<lparr>maxCumulation := max1\<rparr> else s)
   }"

definition setInputBounded :: "bool \<Rightarrow> PIDController \<Rightarrow> PIDController" where
  "setInputBounded bounded s = s\<lparr>inputBounded := bounded\<rparr>"

definition setInputBounds :: "int \<Rightarrow> int \<Rightarrow> PIDController \<Rightarrow> PIDController" where
  "setInputBounds lower upper s =
     (if upper > lower
      then s\<lparr>inputBounded := True, inputUpperBound := upper, inputLowerBound := lower\<rparr>
      else s)"

definition setOutputBounded :: "bool \<Rightarrow> PIDController \<Rightarrow> PIDController" where
  "setOutputBounded bounded s = s\<lparr>outputBounded := bounded\<rparr>"

definition setOutputBounds :: "int \<Rightarrow> int \<Rightarrow> PIDController \<Rightarrow> PIDController" where
  "setOutputBounds lower upper s =
     (if upper > lower
      then s\<lparr>outputBounded := True, outputLowerBound := lower, outputUpperBound := upper\<rparr>
      else s)"

definition setFeedbackWrapped :: "bool \<Rightarrow> PIDController \<Rightarrow> PIDController" where
  "setFeedbackWrapped wrapped s = s\<lparr>feedbackWrapped := wrapped\<rparr>"

definition setFeedbackWrapBounds :: "int \<Rightarrow> int \<Rightarrow> PIDController \<Rightarrow> PIDController" where
  "setFeedbackWrapBounds lower upper s =
     (setInputBounds lower upper s)
       \<lparr>feedbackWrapped := True, feedbackWrapLowerBound := lower,
        feedbackWrapUpperBound := upper\<rparr>"

definition setPID :: "floating \<Rightarrow> floating \<Rightarrow> floating \<Rightarrow> PIDController \<Rightarrow> PIDController" where
  "setPID p i d s = s\<lparr>pGain := p, iGain := i, dGain := d\<rparr>"

definition setP :: "floating \<Rightarrow> PIDController \<Rightarrow> PIDController" where
  "setP p s = s\<lparr>pGain := p\<rparr>"

definition setI :: "floating \<Rightarrow> PIDController \<Rightarrow> PIDController" where
  "setI i s = s\<lparr>iGain := i\<rparr>"

definition setD :: "floating \<Rightarrow> PIDController \<Rightarrow> PIDController" where
  "setD d s = s\<lparr>dGain := d\<rparr>"

definition setPIDSource :: "funptr \<Rightarrow> PIDController \<Rightarrow> PIDController" where
  "setPIDSource f s = s\<lparr>pidSource := f\<rparr>"

definition setPIDOutput :: "funptr \<Rightarrow> PIDController \<Rightarrow> PIDController" where
  "setPIDOutput f s = s\<lparr>pidOutput := f\<rparr>"

definition registerTimeFunction :: "funptr \<Rightarrow> PIDController \<Rightarrow> PIDController" where
  "registerTimeFunction f s = s\<lparr>getSystemTime := f, timeFunctionRegistered := True\<rparr>"

subsection \<open>Sequences of operations\<close>

text \<open>
  One constructor for each operation of the class that changes the controller (the
  getters change nothing). \<open>Tick feedback now\<close> is a call of \<open>tick\<close> during which
  the callbacks return \<open>feedback\<close> and \<open>now\<close>.
\<close>

datatype operation =
    Tick int uint32_t
  | SetTarget int
  | SetEnabled bool
  | SetMaxIntegralCumulation int
  | SetInputBounded bool
  | SetInputBounds int int
  | SetOutputBounded bool
  | SetOutputBounds int int
  | SetFeedbackWrapped bool
  | SetFeedbackWrapBounds int int
  | SetPID floating floating floating
  | SetP floating
  | SetI floating
  | SetD floating
  | SetPIDSource funptr
  | SetPIDOutput funptr
  | RegisterTimeFunction funptr

fun exec :: "operation \<Rightarrow> PIDController \<Rightarrow> PIDController option" where
  "exec (Tick feedback now) s = map_option fst (tick s feedback now)"
| "exec (SetTarget t) s = Some (setTarget t s)"
| "exec (SetEnabled e) s = Some (setEnabled e s)"
| "exec (SetMaxIntegralCumulation m) s = setMaxIntegralCumulation m s"
| "exec (SetInputBounded b) s = Some (setInputBounded b s)"
| "exec (SetInputBounds lower upper) s = Some (setInputBounds lower upper s)"
| "exec (SetOutputBounded b) s = Some (setOutputBounded b s)"
| "exec (SetOutputBounds lower upper) s = Some (setOutputBounds lower upper s)"
| "exec (SetFeedbackWrapped w) s = Some (setFeedbackWrapped w s)"
| "exec (SetFeedbackWrapBounds lower upper) s = Some (setFeedbackWrapBounds lower upper s)"
| "exec (SetPID p i d) s = Some (setPID p i d s)"
| "exec (SetP p) s = Some (setP p s)"
| "exec (SetI i) s = Some (setI i s)"
| "exec (SetD d) s = Some (setD d s)"
| "exec (SetPIDSource f) s = Some (setPIDSource f s)"
| "exec (SetPIDOutput f) s = Some (setPIDOutput f s)"
| "exec (RegisterTimeFunction f) s = Some (registerTimeFunction f s)"

fun run :: "operation list \<Rightarrow> PIDController \<Rightarrow> PIDController option" where
  "run [] s = Some s"
| "run (op # ops) s = (case exec op s of None \<Rightarrow> None | Some s1 \<Rightarrow> run ops s1)"

text \<open>
  A call of a bound setter that passes its guard \<open>upper > lower\<close>
  (\<open>setFeedbackWrapBounds\<close> calls \<open>setInputBounds\<close>).
\<close>

fun boundSetterSucceeds :: "operation \<Rightarrow> bool" where
  "boundSetterSucceeds (SetInputBounds lower upper) = (upper > lower)"
| "boundSetterSucceeds (SetOutputBounds lower upper) = (upper > lower)"
| "boundSetterSucceeds (SetFeedbackWrapBounds lower upper) = (upper > lower)"
| "boundSetterSucceeds _ = False"

fun isSetMaxIntegralCumulation :: "operation \<Rightarrow> bool" where
  "isSetMaxIntegralCumulation (SetMaxIntegralCumulation m) = True"
| "isSetMaxIntegralCumulation _ = False"

text \<open>The integral cumulation lies within the cap.\<close>

definition withinCap :: "PIDController \<Rightarrow> bool" where
  "withinCap s \<longleftrightarrow>
     - maxCumulation s \<le> integralCumulation s \<and> integralCumulation s \<le> maxCumulation s"

subsection \<open>The instantiation at \<open>T = float\<close>\<close>

text \<open>
  Lines 90 to 111 in \<open>PIDController<float>\<close>. The members \<open>target\<close>,
  \<open>currentFeedback\<close>, \<open>error\<close> and the wrap bounds are \<open>float\<close> there, and the
  locals \<open>regErr\<close>, \<open>altErr1\<close>, \<open>altErr2\<close> and their absolute values are still
  declared \<open>int\<close>: each candidate is computed in \<open>float\<close> (binary32, every
  operation rounded) and converted to \<open>int\<close> by its initialisation, and the chosen
  \<open>int\<close> is converted back by the assignment to \<open>error\<close>.
\<close>

definition wrappedError_float ::
  "floating \<Rightarrow> floating \<Rightarrow> floating \<Rightarrow> floating \<Rightarrow> floating \<Rightarrow> floating option" where
  "wrappedError_float tgt cf wrapLo wrapHi oldError = do {
     regErr \<leftarrow> floating_to_int (float_sub tgt cf);
     altErr1 \<leftarrow> floating_to_int (float_add (float_sub tgt wrapLo) (float_sub wrapHi cf));
     altErr2 \<leftarrow> floating_to_int (float_add (float_sub wrapHi tgt) (float_sub cf wrapLo));
     regErrAbs \<leftarrow> int_abs regErr;
     altErr1Abs \<leftarrow> int_abs altErr1;
     altErr2Abs \<leftarrow> int_abs altErr2;
     Some (case selectError regErr regErrAbs altErr1Abs altErr2Abs of
             Some e \<Rightarrow> int_to_float e
           | None \<Rightarrow> oldError)
   }"


text \<open>All four input and output bound values are zero, as the constructor leaves them.\<close>

definition boundsZero :: "PIDController \<Rightarrow> bool" where
  "boundsZero s \<longleftrightarrow>
     inputLowerBound s = 0 \<and> inputUpperBound s = 0
     \<and> outputLowerBound s = 0 \<and> outputUpperBound s = 0"

section \<open>Debounce of the mode-change button\<close>

lemma modeChangeButton_prev_time:
  "prev_time (fst (modeChangeButton t g)) = t"
  by (simp add: modeChangeButton_def Let_def)

lemma modeChangeButton_raised:
  "snd (modeChangeButton t g) =
     (if t - prev_time g > 300 then [(stateMachineEvents, 0x69)] else [])"
  by (simp add: modeChangeButton_def Let_def)

text \<open>
  C2, as the code has it. The handler compares the tick count with the tick count of
  the invocation before it, whether that one raised the signal or not. So of three
  consecutive invocations at \<open>t1\<close>, \<open>t2\<close>, \<open>t3\<close> (from any state of the dispatcher),
  the first raises \<open>0x69\<close> exactly when it comes more than 300 units after its
  predecessor, the second raises nothing when it comes less than 300 units after the
  first, and the third raises nothing when it comes within 300 units of the second,
  however long after the first that is.
\<close>

theorem modeChangeButton_debounce:
  "(snd (modeChangeButton t1 g) = [(stateMachineEvents, 0x69)] \<longleftrightarrow> 300 < t1 - prev_time g)
   \<and> (t2 - t1 < 300 \<longrightarrow>
        snd (modeChangeButton t2 (fst (modeChangeButton t1 g))) = [])
   \<and> (t3 - t2 \<le> 300 \<longrightarrow>
        snd (modeChangeButton t3
          (fst (modeChangeButton t2 (fst (modeChangeButton t1 g))))) = [])"
  by (auto simp: modeChangeButton_raised modeChangeButton_prev_time)

text \<open>
  An instance of C2 as amended: invocations at ticks 1000, 1200 and 1400 on a fresh
  dispatcher. The first raises the signal, the other two raise nothing.
\<close>

theorem modeChangeButton_debounce_witness:
  "(snd (modeChangeButton 1000 dispatcher_init) = [(stateMachineEvents, 0x69)])
   \<and> (1200 :: uint32_t) - 1000 < 300
   \<and> snd (modeChangeButton 1200 (fst (modeChangeButton 1000 dispatcher_init))) = []
   \<and> (1400 :: uint32_t) - 1200 \<le> 300
   \<and> snd (modeChangeButton 1400
        (fst (modeChangeButton 1200 (fst (modeChangeButton 1000 dispatcher_init))))) = []"
  using modeChangeButton_debounce
    [where ?t1.0 = 1000 and g = dispatcher_init and ?t2.0 = 1200 and ?t3.0 = 1400]
  by (simp add: dispatcher_init_def)

text \<open>
  C2 as stated fails: invocations at ticks 1000, 1200 and 1400 on a fresh dispatcher.
  The second is less than 300 units after the first, the third is more than 300 units
  after the first and within 300 of the second, and the third raises nothing.
\<close>

theorem modeChangeButton_third_counterexample:
  "(1200 :: uint32_t) - 1000 < 300
   \<and> 300 < (1400 :: uint32_t) - 1000
   \<and> (1400 :: uint32_t) - 1200 < 300
   \<and> snd (modeChangeButton 1000 dispatcher_init) = [(stateMachineEvents, 0x69)]
   \<and> snd (modeChangeButton 1200 (fst (modeChangeButton 1000 dispatcher_init))) = []
   \<and> snd (modeChangeButton 1400
        (fst (modeChangeButton 1200 (fst (modeChangeButton 1000 dispatcher_init))))) = []"
  by (simp add: modeChangeButton_def dispatcher_init_def Let_def)

text \<open>
  C3, as the code has it. On a freshly initialised dispatcher the first invocation
  raises \<open>0x69\<close> on the state-machine event group exactly when the tick count is
  greater than 300, and raises nothing otherwise.
\<close>

theorem modeChangeButton_first:
  "snd (modeChangeButton t dispatcher_init) =
     (if 300 < t then [(stateMachineEvents, 0x69)] else [])"
  by (simp add: modeChangeButton_raised dispatcher_init_def)

text \<open>
  C3 as stated fails: a first invocation at tick 100 raises nothing.
\<close>

theorem modeChangeButton_first_counterexample:
  "snd (modeChangeButton 100 dispatcher_init) = []"
  by (simp add: modeChangeButton_def dispatcher_init_def Let_def)

section \<open>Facts about the floating-point model\<close>

text \<open>
  The exponent \<open>binade\<close> computes is the right one, rounding is to a nearest value of
  the format, and 32-bit integers are \<open>double\<close> values (so \<open>int_to_double\<close> rounds
  nothing away).
\<close>

lemma bit_length_nonneg: "0 \<le> bit_length a"
  by (induction a rule: bit_length.induct) (subst bit_length.simps, simp)

lemma bit_length_pos: "0 < a \<Longrightarrow> 1 \<le> bit_length a"
  using bit_length_nonneg [of "a div 2"] by (subst bit_length.simps) simp

lemma bit_length_bounds:
  "0 < a \<Longrightarrow> 2 ^ nat (bit_length a - 1) \<le> a \<and> a < 2 ^ nat (bit_length a)"
proof (induction a rule: bit_length.induct)
  case (1 a)
  show ?case
  proof (cases "a div 2 = 0")
    case True
    with 1(2) have "a = 1" by presburger
    then show ?thesis by (simp add: bit_length.simps)
  next
    case False
    with 1(2) have h: "0 < a div 2" by presburger
    let ?k = "bit_length (a div 2)"
    from 1(1) h 1(2) have ih: "2 ^ nat (?k - 1) \<le> a div 2" "a div 2 < 2 ^ nat ?k"
      by simp_all
    from bit_length_pos [OF h] have k: "1 \<le> ?k" .
    have b: "bit_length a = ?k + 1" using 1(2) by (subst bit_length.simps) simp
    from k have p: "(2::int) ^ nat ?k = 2 * 2 ^ nat (?k - 1)"
      by (metis Suc_nat_eq_nat_zadd1 add.commute diff_add_cancel diff_ge_0_iff_ge power_Suc)
    have q: "(2::int) ^ nat (?k + 1) = 2 * 2 ^ nat ?k"
      using k by (simp add: nat_add_distrib)
    have "2 * (a div 2) \<le> a" "a \<le> 2 * (a div 2) + 1" by presburger+
    with ih p q show ?thesis unfolding b by simp
  qed
qed

lemma pow2_pos: "0 < pow2 n"
  by (simp add: pow2_def)

lemma pow2_nonneg: "0 \<le> n \<Longrightarrow> pow2 n = 2 ^ nat n"
  by (simp add: pow2_def)

lemma pow2_neg: "n \<le> 0 \<Longrightarrow> pow2 n = 1 / 2 ^ nat (- n)"
  by (simp add: pow2_def)

lemma binade_bounds:
  assumes "x \<noteq> 0"
  shows "pow2 (binade x) \<le> \<bar>x\<bar> \<and> \<bar>x\<bar> < pow2 (binade x + 1)"
proof (cases "1 \<le> \<bar>x\<bar>")
  case True
  let ?n = "\<lfloor>\<bar>x\<bar>\<rfloor>"
  from True have n: "0 < ?n" by simp
  from True have b: "binade x = bit_length ?n - 1" by (simp add: binade_def)
  from bit_length_pos [OF n] have k: "0 \<le> bit_length ?n - 1" by simp
  from bit_length_bounds [OF n]
  have lo: "2 ^ nat (bit_length ?n - 1) \<le> ?n" and hi: "?n < 2 ^ nat (bit_length ?n)"
    by simp_all
  from lo have "real_of_int (2 ^ nat (bit_length ?n - 1)) \<le> real_of_int ?n"
    by (rule of_int_le_iff [THEN iffD2])
  also have "\<dots> \<le> \<bar>x\<bar>" by simp
  finally have l: "pow2 (binade x) \<le> \<bar>x\<bar>"
    unfolding b using k by (simp add: pow2_nonneg)
  from hi have "?n + 1 \<le> 2 ^ nat (bit_length ?n)" by simp
  then have "real_of_int (?n + 1) \<le> real_of_int (2 ^ nat (bit_length ?n))"
    by (rule of_int_le_iff [THEN iffD2])
  moreover have "\<bar>x\<bar> < real_of_int (?n + 1)" by linarith
  ultimately have "\<bar>x\<bar> < real_of_int (2 ^ nat (bit_length ?n))" by linarith
  then have u: "\<bar>x\<bar> < pow2 (binade x + 1)"
    unfolding b using k by (simp add: pow2_nonneg)
  from l u show ?thesis ..
next
  case False
  let ?y = "1 / \<bar>x\<bar>"
  let ?m = "\<lceil>?y\<rceil> - 1"
  let ?k = "bit_length ?m"
  from False assms have x: "0 < \<bar>x\<bar>" "\<bar>x\<bar> < 1" by simp_all
  then have y: "1 < ?y" by simp
  then have m: "0 < ?m" by linarith
  from False have b: "binade x = - ?k" by (simp add: binade_def)
  from bit_length_pos [OF m] have k: "1 \<le> ?k" .
  from bit_length_bounds [OF m]
  have lo: "2 ^ nat (?k - 1) \<le> ?m" and hi: "?m < 2 ^ nat ?k"
    by simp_all
  from hi have c: "\<lceil>?y\<rceil> \<le> 2 ^ nat ?k" by simp
  have "?y \<le> real_of_int \<lceil>?y\<rceil>" by (rule le_of_int_ceiling)
  also from c have "\<dots> \<le> real_of_int (2 ^ nat ?k)"
    by (rule of_int_le_iff [THEN iffD2])
  also have "\<dots> = 2 ^ nat ?k" by simp
  finally have "?y \<le> 2 ^ nat ?k" .
  with x(1) have "1 / 2 ^ nat ?k \<le> \<bar>x\<bar>"
    by (simp add: field_simps)
  then have l: "pow2 (binade x) \<le> \<bar>x\<bar>"
    unfolding b using k by (simp add: pow2_neg)
  have "2 ^ nat (?k - 1) = real_of_int (2 ^ nat (?k - 1))" by simp
  also from lo have "\<dots> \<le> real_of_int ?m"
    by (rule of_int_le_iff [THEN iffD2])
  also have "\<dots> < ?y" by linarith
  finally have "2 ^ nat (?k - 1) < ?y" .
  with x(1) have "\<bar>x\<bar> < 1 / 2 ^ nat (?k - 1)"
    by (simp add: field_simps)
  moreover from k have "pow2 (- ?k + 1) = 1 / 2 ^ nat (?k - 1)"
    by (simp add: pow2_neg)
  ultimately have u: "\<bar>x\<bar> < pow2 (binade x + 1)"
    unfolding b by simp
  from l u show ?thesis ..
qed

lemma round_half_even_nearest: "\<bar>real_of_int (round_half_even q) - q\<bar> \<le> 1/2"
  unfolding round_half_even_def Let_def by (simp; linarith)

text \<open>Rounding is to a nearest value: the error is at most half a unit in the last place.\<close>

lemma round_floating_nearest:
  assumes "round_floating prec emin emax x = Finite y"
  shows "\<bar>y - x\<bar> \<le> pow2 (max (binade x) emin - (prec - 1)) / 2"
proof (cases "x = 0")
  case True
  with assms have "y = 0" by (simp add: round_floating_def)
  with True pow2_pos [of "max (binade x) emin - (prec - 1)"] show ?thesis by simp
next
  case False
  let ?u = "pow2 (max (binade x) emin - (prec - 1))"
  let ?q = "x / ?u"
  have u: "0 < ?u" by (rule pow2_pos)
  from False assms have y: "y = real_of_int (round_half_even ?q) * ?u"
    by (simp add: round_floating_def Let_def split: if_splits)
  from u have "y - x = (real_of_int (round_half_even ?q) - ?q) * ?u"
    unfolding y by (simp add: field_simps)
  then have "\<bar>y - x\<bar> = \<bar>real_of_int (round_half_even ?q) - ?q\<bar> * ?u"
    using u by (simp add: abs_mult)
  also from round_half_even_nearest [of ?q] u have "\<dots> \<le> (1/2) * ?u"
    by (rule mult_right_mono [OF _ less_imp_le])
  finally show ?thesis by simp
qed

lemma round_half_even_of_int: "round_half_even (real_of_int k) = k"
  by (simp add: round_half_even_def)

text \<open>An integer of fewer than 54 bits is a \<open>double\<close>: rounding leaves it as it is.\<close>

lemma round_double_of_int:
  assumes "\<bar>n\<bar> < 2 ^ 53"
  shows "round_double (real_of_int n) = Finite (real_of_int n)"
proof (cases "n = 0")
  case True
  then show ?thesis by (simp add: round_double_def round_floating_def)
next
  case False
  let ?x = "real_of_int n"
  let ?b = "bit_length \<bar>n\<bar>"
  from False have p: "0 < \<bar>n\<bar>" by simp
  then have "1 \<le> \<bar>?x\<bar>" by linarith
  moreover have "\<lfloor>\<bar>?x\<bar>\<rfloor> = \<bar>n\<bar>" by (metis floor_of_int of_int_abs)
  ultimately have b: "binade ?x = ?b - 1" by (simp add: binade_def)
  from bit_length_pos [OF p] have b1: "1 \<le> ?b" .
  from bit_length_bounds [OF p] assms have "(2::int) ^ nat (?b - 1) < 2 ^ 53" by linarith
  then have "nat (?b - 1) < 53"
    by (rule power_less_imp_less_exp [rotated]) simp
  with b1 have b2: "?b \<le> 53" by linarith
  let ?j = "nat (53 - ?b)"
  from b1 b2 have u: "pow2 (max (?b - 1) (- 1022) - (53 - 1)) = 1 / 2 ^ ?j"
    by (simp add: pow2_neg max_def)
  have q: "?x / (1 / 2 ^ ?j) = real_of_int (n * 2 ^ ?j)" by simp
  have r: "round_half_even (?x / (1 / 2 ^ ?j)) = n * 2 ^ ?j"
    unfolding q by (rule round_half_even_of_int)
  have y: "real_of_int (n * 2 ^ ?j) * (1 / 2 ^ ?j) = ?x" by simp
  from assms have "\<bar>?x\<bar> < 2 ^ 53"
    by (metis of_int_abs of_int_less_iff of_int_numeral of_int_power)
  also have "(2::real) ^ 53 < pow2 (1023 + 1)" by (simp add: pow2_def)
  finally have f: "\<bar>?x\<bar> < pow2 (1023 + 1)" .
  from False have nz: "?x \<noteq> 0" by simp
  show ?thesis
    unfolding round_double_def round_floating_def Let_def b u r y
    using nz f by simp
qed

section \<open>Facts about the steps of \<open>tick\<close>\<close>

lemmas arith_defs = int_result_def INT_MIN_def INT_MAX_def int_div_def int_abs_def
  truncation_def

text \<open>For the evaluation of floating-point operations on numerals.\<close>

lemmas floating_defs = weightedSum_def int_to_double_def int_to_float_def round_double_def
  round_float_def round_floating_def round_half_even_def binade_def pow2_def
  bit_length.simps Let_def

lemmas tick_defs = tick_def boundInput_def computeError_def wrappedError_def selectError_def
  integrate_def capCumulation_def computeOutput_def boundOutput_def

lemmas setter_defs = setTarget_def setEnabled_def setMaxIntegralCumulation_def
  setInputBounded_def setInputBounds_def setOutputBounded_def setOutputBounds_def
  setFeedbackWrapped_def setFeedbackWrapBounds_def setPID_def setP_def setI_def setD_def
  setPIDSource_def setPIDOutput_def registerTimeFunction_def

lemma int_result_Some: "int_result x = Some y \<Longrightarrow> y = x"
  by (simp add: int_result_def split: if_splits)

lemma int_abs_Some: "int_abs x = Some y \<Longrightarrow> y = \<bar>x\<bar>"
  by (auto simp: int_abs_def dest: int_result_Some split: if_splits)


lemma tick_disabled: "\<not> enabled s \<Longrightarrow> tick s fb now = Some (s, [])"
  by (simp add: tick_def)

text \<open>An enabled tick that is defined went through every step.\<close>

lemma tick_enabled_cases:
  assumes "enabled s" and "tick s fb now = Some (s', outs)"
  obtains err cumulation derivative cur last capped raw where
    "computeError s (boundInput s fb) = Some err"
    "integrate s err now = Some (cumulation, derivative, cur, last)"
    "capCumulation s cumulation = Some capped"
    "computeOutput s err capped derivative = Some raw"
    "s' = s\<lparr> currentFeedback := boundInput s fb, error := err,
              currentTime := cur, lastTime := last,
              integralCumulation := capped, cycleDerivative := derivative,
              output := boundOutput s raw, lastFeedback := boundInput s fb,
              lastError := err \<rparr>"
    "outs = [boundOutput s raw]"
  using assms
  by (auto simp: tick_def Let_def split: Option.bind_splits prod.splits)

lemma tick_unchanged:
  assumes "tick s fb now = Some (s', outs)"
  shows "maxCumulation s' = maxCumulation s" "enabled s' = enabled s"
    "inputLowerBound s' = inputLowerBound s" "inputUpperBound s' = inputUpperBound s"
    "outputLowerBound s' = outputLowerBound s" "outputUpperBound s' = outputUpperBound s"
proof -
  have "maxCumulation s' = maxCumulation s \<and> enabled s' = enabled s
    \<and> inputLowerBound s' = inputLowerBound s \<and> inputUpperBound s' = inputUpperBound s
    \<and> outputLowerBound s' = outputLowerBound s \<and> outputUpperBound s' = outputUpperBound s"
  proof (cases "enabled s")
    case True
    show ?thesis by (rule tick_enabled_cases [OF True assms]) simp
  next
    case False
    with assms show ?thesis by (simp add: tick_def)
  qed
  then show "maxCumulation s' = maxCumulation s" "enabled s' = enabled s"
    "inputLowerBound s' = inputLowerBound s" "inputUpperBound s' = inputUpperBound s"
    "outputLowerBound s' = outputLowerBound s" "outputUpperBound s' = outputUpperBound s"
    by simp_all
qed

text \<open>Running two sequences one after the other.\<close>

lemma run_append:
  "run (xs @ ys) s = (case run xs s of None \<Rightarrow> None | Some s1 \<Rightarrow> run ys s1)"
  by (induction xs arbitrary: s) (auto split: option.splits)

lemma run_append_Some:
  "run xs s = Some s1 \<Longrightarrow> run ys s1 = Some s2 \<Longrightarrow> run (xs @ ys) s = Some s2"
  by (simp add: run_append)

section \<open>The error of a wrapped tick\<close>

text \<open>
  With exact candidates \<open>r\<close>, \<open>r + w\<close> and \<open>w - r\<close> (\<open>r\<close> the direct error, \<open>w\<close> the
  width of the wrap interval) one branch of the chain is always taken.
\<close>

lemma selectError_assigns:
  "selectError r \<bar>r\<bar> \<bar>r + w\<bar> \<bar>w - r\<bar> \<noteq> None"
  by (simp add: selectError_def) linarith

lemma selectError_ordered:
  assumes "0 \<le> w"
  shows "selectError r \<bar>r\<bar> \<bar>r + w\<bar> \<bar>w - r\<bar> =
     Some (if \<bar>r\<bar> \<le> \<bar>r + w\<bar> \<and> \<bar>r\<bar> \<le> \<bar>w - r\<bar> then r
           else if \<bar>r + w\<bar> < \<bar>w - r\<bar> then \<bar>r + w\<bar> else \<bar>w - r\<bar>)"
  using assms by (simp add: selectError_def)

lemma wrappedError_candidates:
  assumes "wrappedError tgt cf wrapLo wrapHi e0 = Some e"
  shows "selectError (tgt - cf) \<bar>tgt - cf\<bar> \<bar>(tgt - wrapLo) + (wrapHi - cf)\<bar>
           \<bar>(wrapHi - tgt) + (cf - wrapLo)\<bar> = Some e
         \<or> (selectError (tgt - cf) \<bar>tgt - cf\<bar> \<bar>(tgt - wrapLo) + (wrapHi - cf)\<bar>
           \<bar>(wrapHi - tgt) + (cf - wrapLo)\<bar> = None \<and> e = e0)"
  using assms
  by (auto simp: wrappedError_def split: Option.bind_splits option.splits
      dest!: int_result_Some int_abs_Some)

text \<open>
  Where no operation overflows, a wrapped tick always assigns \<open>error\<close>: the value is
  the one the chain selects, never the old error.
\<close>

lemma wrappedError_assigned:
  assumes "wrappedError tgt cf wrapLo wrapHi e0 = Some e"
  shows "selectError (tgt - cf) \<bar>tgt - cf\<bar> \<bar>(tgt - wrapLo) + (wrapHi - cf)\<bar>
           \<bar>(wrapHi - tgt) + (cf - wrapLo)\<bar> = Some e"
proof -
  have a: "(tgt - wrapLo) + (wrapHi - cf) = (tgt - cf) + (wrapHi - wrapLo)"
    and b: "(wrapHi - tgt) + (cf - wrapLo) = (wrapHi - wrapLo) - (tgt - cf)"
    by simp_all
  from wrappedError_candidates [OF assms] selectError_assigns [of "tgt - cf" "wrapHi - wrapLo"]
  show ?thesis unfolding a b by blast
qed

text \<open>
  With wrap bounds in order (\<open>wrapLo \<le> wrapHi\<close>) the chain does select by smallest
  absolute value: the signed direct error when its absolute value is minimal, and
  otherwise the absolute value of the smaller alternate candidate.
\<close>

lemma wrappedError_ordered:
  assumes "wrapLo \<le> wrapHi" and "wrappedError tgt cf wrapLo wrapHi e0 = Some e"
  shows "e = (if \<bar>tgt - cf\<bar> \<le> \<bar>(tgt - wrapLo) + (wrapHi - cf)\<bar>
                \<and> \<bar>tgt - cf\<bar> \<le> \<bar>(wrapHi - tgt) + (cf - wrapLo)\<bar>
              then tgt - cf
              else if \<bar>(tgt - wrapLo) + (wrapHi - cf)\<bar> < \<bar>(wrapHi - tgt) + (cf - wrapLo)\<bar>
              then \<bar>(tgt - wrapLo) + (wrapHi - cf)\<bar>
              else \<bar>(wrapHi - tgt) + (cf - wrapLo)\<bar>)"
proof -
  have a: "(tgt - wrapLo) + (wrapHi - cf) = (tgt - cf) + (wrapHi - wrapLo)"
    and b: "(wrapHi - tgt) + (cf - wrapLo) = (wrapHi - wrapLo) - (tgt - cf)"
    by simp_all
  from assms(1) have w: "0 \<le> wrapHi - wrapLo" by simp
  from wrappedError_assigned [OF assms(2)] selectError_ordered [OF w, of "tgt - cf"]
  show ?thesis unfolding a b by simp
qed

text \<open>
  C1, where the code departs from it. The first comparison of the chain reads
  \<open>regErrAbs <= altErr1Abs && regErr <= altErr2Abs\<close>: its second half compares the
  signed \<open>regErr\<close>, although the comment beside it says "If reguErrAbs is smallest".
  \<open>setFeedbackWrapBounds(10, 0)\<close> stores its arguments as the wrap bounds whatever
  their order (only the input bounds it also sets are guarded). With target 0 and
  feedback 10 the candidates are then \<open>regErr = -10\<close>, \<open>altErr1 = -20\<close> and
  \<open>altErr2 = 0\<close>; the absolute value of \<open>regErr\<close> is not minimal, and the tick still
  sets \<open>error\<close> to \<open>regErr = -10\<close> rather than to the absolute value 0 of \<open>altErr2\<close>.
\<close>

theorem wrappedError_signed_comparison:
  "run [SetFeedbackWrapBounds 10 0, SetTarget 0, Tick 10 0]
      (PIDController_new (Finite 1) (Finite 0) (Finite 0) 11 12 0 0 13) =
     Some ((PIDController_new (Finite 1) (Finite 0) (Finite 0) 11 12 0 0 13)
        \<lparr> feedbackWrapped := True, feedbackWrapLowerBound := 10,
          feedbackWrapUpperBound := 0, currentFeedback := 10, lastFeedback := 10,
          error := - 10, lastError := - 10, integralCumulation := - 10,
          cycleDerivative := - 10, output := - 10 \<rparr>)
   \<and> wrappedError 0 10 10 0 0 = Some (- 10)
   \<and> \<bar>(0::int) - 10\<bar> = 10
   \<and> \<bar>((0::int) - 10) + (0 - 10)\<bar> = 20
   \<and> \<bar>((0::int) - 0) + (10 - 10)\<bar> = 0"
  by (simp add: PIDController_new_def setter_defs tick_defs arith_defs floating_defs)

section \<open>The integral cap\<close>

lemma capCumulation_within:
  assumes "0 \<le> maxCumulation s" and "capCumulation s c = Some c'"
  shows "- maxCumulation s \<le> c' \<and> c' \<le> maxCumulation s"
  using assms
  by (auto simp: capCumulation_def int_result_def Let_def split: if_splits Option.bind_splits)

lemma tick_within:
  assumes "0 \<le> maxCumulation s" "enabled s" "tick s fb now = Some (s', outs)"
  shows "withinCap s'"
  by (rule tick_enabled_cases [OF assms(2,3)])
     (use assms(1) capCumulation_within in \<open>auto simp: withinCap_def\<close>)

lemma exec_maxCumulation:
  assumes "exec op s = Some s'" and "1 < maxCumulation s"
  shows "1 < maxCumulation s'"
proof (cases op)
  case (Tick fb now)
  with assms obtain outs where "tick s fb now = Some (s', outs)" by auto
  from tick_unchanged(1) [OF this] assms(2) show ?thesis by simp
next
  case (SetMaxIntegralCumulation m)
  with assms show ?thesis
    by (auto simp: setMaxIntegralCumulation_def split: if_splits Option.bind_splits)
qed (use assms in \<open>auto simp: setter_defs split: if_splits\<close>)

lemma run_maxCumulation:
  "run ops s = Some s' \<Longrightarrow> 1 < maxCumulation s \<Longrightarrow> 1 < maxCumulation s'"
proof (induction ops arbitrary: s)
  case Nil
  then show ?case by simp
next
  case (Cons op ops)
  then show ?case by (auto split: option.splits dest: exec_maxCumulation)
qed

lemma exec_withinCap:
  assumes "exec op s = Some s'" and "\<not> isSetMaxIntegralCumulation op"
    and "1 < maxCumulation s" and "withinCap s"
  shows "withinCap s'"
proof (cases op)
  case (Tick fb now)
  with assms obtain outs where t: "tick s fb now = Some (s', outs)" by auto
  show ?thesis
  proof (cases "enabled s")
    case True
    with t assms(3) tick_within [of s fb now s' outs] show ?thesis by simp
  next
    case False
    with t assms(4) show ?thesis by (simp add: tick_def)
  qed
next
  case (SetMaxIntegralCumulation m)
  with assms show ?thesis by simp
qed (use assms in \<open>auto simp: setter_defs withinCap_def split: if_splits\<close>)

lemma run_withinCap:
  "run ops s = Some s' \<Longrightarrow> \<not> list_ex isSetMaxIntegralCumulation ops \<Longrightarrow>
   1 < maxCumulation s \<Longrightarrow> withinCap s \<Longrightarrow> withinCap s'"
proof (induction ops arbitrary: s)
  case Nil
  then show ?case by simp
next
  case (Cons op ops)
  from Cons.prems obtain s1 where e: "exec op s = Some s1" and r: "run ops s1 = Some s'"
    by (auto split: option.splits)
  from Cons.prems have n: "\<not> isSetMaxIntegralCumulation op"
    "\<not> list_ex isSetMaxIntegralCumulation ops" by simp_all
  from exec_withinCap [OF e n(1) Cons.prems(3,4)] exec_maxCumulation [OF e Cons.prems(3)]
    Cons.IH [OF r n(2)]
  show ?case by simp
qed

text \<open>What \<open>setMaxIntegralCumulation\<close> does: it changes the cap, or nothing.\<close>

lemma setMaxIntegralCumulation_effect:
  assumes "setMaxIntegralCumulation m s = Some s'"
  shows "s' = s\<lparr>maxCumulation := (if 1 < \<bar>m\<bar> then \<bar>m\<bar> else maxCumulation s)\<rparr>"
  using assms
  by (auto simp: setMaxIntegralCumulation_def int_result_def
           split: if_splits Option.bind_splits)

text \<open>
  C4, as the code has it. After every sequence of operations on a constructed
  controller \<open>maxCumulation\<close> is greater than 1. \<open>integralCumulation\<close> lies within
  \<open>[-maxCumulation, maxCumulation]\<close> after construction, every operation other than
  \<open>setMaxIntegralCumulation\<close> keeps it there, and after every enabled tick it is
  there whatever it was before. \<open>setMaxIntegralCumulation(max)\<close> changes nothing but
  the cap, which becomes the magnitude of \<open>max\<close> when that is greater than 1 and
  stays as it is otherwise; it does not trim the value accumulated so far, so after it
  \<open>integralCumulation\<close> is within the cap exactly when its magnitude is at most the
  cap now in force.
\<close>

theorem integral_cap:
  assumes "run ops (PIDController_new p i d src out wrapLo wrapHi timeFn) = Some s"
  shows "1 < maxCumulation s
       \<and> (\<not> list_ex isSetMaxIntegralCumulation ops \<longrightarrow> withinCap s)
       \<and> (\<forall>op s'. \<not> isSetMaxIntegralCumulation op \<longrightarrow> withinCap s \<longrightarrow>
             exec op s = Some s' \<longrightarrow> withinCap s')
       \<and> (\<forall>m s'. exec (SetMaxIntegralCumulation m) s = Some s' \<longrightarrow>
             s' = s\<lparr>maxCumulation := (if 1 < \<bar>m\<bar> then \<bar>m\<bar> else maxCumulation s)\<rparr>
             \<and> integralCumulation s' = integralCumulation s
             \<and> (withinCap s' \<longleftrightarrow> \<bar>integralCumulation s\<bar> \<le> maxCumulation s'))
       \<and> (\<forall>feedback now s' outs. enabled s \<longrightarrow>
             tick s feedback now = Some (s', outs) \<longrightarrow> withinCap s')"
proof -
  let ?c = "PIDController_new p i d src out wrapLo wrapHi timeFn"
  have c: "1 < maxCumulation ?c" "withinCap ?c"
    by (simp_all add: PIDController_new_def withinCap_def)
  have m: "1 < maxCumulation s"
    by (rule run_maxCumulation [OF assms c(1)])
  have w: "\<not> list_ex isSetMaxIntegralCumulation ops \<longrightarrow> withinCap s"
    using run_withinCap [OF assms _ c] by blast
  have e: "\<forall>op s'. \<not> isSetMaxIntegralCumulation op \<longrightarrow> withinCap s \<longrightarrow>
             exec op s = Some s' \<longrightarrow> withinCap s'"
    using exec_withinCap m by blast
  have x: "s' = s\<lparr>maxCumulation := (if 1 < \<bar>k\<bar> then \<bar>k\<bar> else maxCumulation s)\<rparr>
             \<and> integralCumulation s' = integralCumulation s
             \<and> (withinCap s' \<longleftrightarrow> \<bar>integralCumulation s\<bar> \<le> maxCumulation s')"
    if "exec (SetMaxIntegralCumulation k) s = Some s'" for k s'
  proof -
    from that have "setMaxIntegralCumulation k s = Some s'" by simp
    from setMaxIntegralCumulation_effect [OF this]
    have q: "s' = s\<lparr>maxCumulation := (if 1 < \<bar>k\<bar> then \<bar>k\<bar> else maxCumulation s)\<rparr>" .
    have i: "integralCumulation s' = integralCumulation s"
      by (subst q) simp
    have "withinCap s' \<longleftrightarrow> \<bar>integralCumulation s'\<bar> \<le> maxCumulation s'"
      by (auto simp: withinCap_def)
    with q i show ?thesis by simp
  qed
  have t: "\<forall>feedback now s' outs. enabled s \<longrightarrow>
             tick s feedback now = Some (s', outs) \<longrightarrow> withinCap s'"
    using tick_within m by (metis less_imp_le order_trans zero_le_one)
  from m w e x t show ?thesis by blast
qed

text \<open>
  An instance of C4: after one tick with feedback -100 the integral is 100;
  the next tick, with feedback -40000, would bring it to 40100 and leaves it at the
  cap, 30000. After the first tick \<open>setMaxIntegralCumulation(-50000)\<close> makes the cap
  50000 and \<open>setMaxIntegralCumulation(1)\<close> changes nothing; the integral stays 100.
\<close>

theorem integral_cap_witness:
  "run [Tick (- 100) 0] (PIDController_new (Finite 1) (Finite 0) (Finite 0) 11 12 0 0 13) =
     Some ((PIDController_new (Finite 1) (Finite 0) (Finite 0) 11 12 0 0 13)
        \<lparr> currentFeedback := - 100, lastFeedback := - 100, error := 100, lastError := 100,
          integralCumulation := 100, cycleDerivative := 100, output := 100 \<rparr>)
   \<and> \<not> list_ex isSetMaxIntegralCumulation [Tick (- 100) 0]
   \<and> map_option withinCap
        (run [Tick (- 100) 0]
          (PIDController_new (Finite 1) (Finite 0) (Finite 0) 11 12 0 0 13)) = Some True
   \<and> map_option integralCumulation
        (run [Tick (- 100) 0, Tick (- 40000) 0]
          (PIDController_new (Finite 1) (Finite 0) (Finite 0) 11 12 0 0 13)) = Some 30000
   \<and> map_option withinCap
        (run [Tick (- 100) 0, Tick (- 40000) 0]
          (PIDController_new (Finite 1) (Finite 0) (Finite 0) 11 12 0 0 13)) = Some True
   \<and> run [Tick (- 100) 0, SetMaxIntegralCumulation (- 50000)]
        (PIDController_new (Finite 1) (Finite 0) (Finite 0) 11 12 0 0 13) =
     Some ((PIDController_new (Finite 1) (Finite 0) (Finite 0) 11 12 0 0 13)
        \<lparr> currentFeedback := - 100, lastFeedback := - 100, error := 100, lastError := 100,
          integralCumulation := 100, cycleDerivative := 100, output := 100,
          maxCumulation := 50000 \<rparr>)
   \<and> run [Tick (- 100) 0, SetMaxIntegralCumulation 1]
        (PIDController_new (Finite 1) (Finite 0) (Finite 0) 11 12 0 0 13) =
     Some ((PIDController_new (Finite 1) (Finite 0) (Finite 0) 11 12 0 0 13)
        \<lparr> currentFeedback := - 100, lastFeedback := - 100, error := 100, lastError := 100,
          integralCumulation := 100, cycleDerivative := 100, output := 100 \<rparr>)"
proof -
  let ?c = "PIDController_new (Finite 1) (Finite 0) (Finite 0) 11 12 0 0 13"
  let ?s = "?c\<lparr> currentFeedback := - 100, lastFeedback := - 100, error := 100,
                lastError := 100, integralCumulation := 100, cycleDerivative := 100,
                output := 100 \<rparr>"
  have r: "run [Tick (- 100) 0] ?c = Some ?s"
    by (simp add: PIDController_new_def tick_defs arith_defs floating_defs)
  let ?s' = "?s\<lparr> currentFeedback := - 40000, lastFeedback := - 40000, error := 40000,
                 lastError := 40000, integralCumulation := 30000, cycleDerivative := 39900,
                 output := 40000 \<rparr>"
  have e: "enabled ?s" by (simp add: PIDController_new_def)
  have n: "\<not> list_ex isSetMaxIntegralCumulation [Tick (- 100) 0]" by simp
  have t: "tick ?s (- 40000) 0 = Some (?s', [40000])"
    by (simp add: PIDController_new_def tick_defs arith_defs floating_defs)
  have t1: "run [Tick (- 40000) 0] ?s = Some ?s'"
    by (simp add: t)
  have "run ([Tick (- 100) 0] @ [Tick (- 40000) 0]) ?c = Some ?s'"
    by (rule run_append_Some [OF r t1])
  then have r2: "run [Tick (- 100) 0, Tick (- 40000) 0] ?c = Some ?s'"
    by (simp only: append.simps)
  from integral_cap [OF r] n have m: "withinCap ?s" by blast
  from integral_cap [OF r] e t have m': "withinCap ?s'" by blast
  have c3: "map_option withinCap (run [Tick (- 100) 0] ?c) = Some True"
    unfolding r using m by simp
  have c4: "map_option integralCumulation (run [Tick (- 100) 0, Tick (- 40000) 0] ?c)
       = Some 30000"
    unfolding r2 by simp
  have c5: "map_option withinCap (run [Tick (- 100) 0, Tick (- 40000) 0] ?c) = Some True"
    unfolding r2 using m' by simp
  have x1: "exec (SetMaxIntegralCumulation (- 50000)) ?s = Some (?s\<lparr>maxCumulation := 50000\<rparr>)"
    by (simp add: setMaxIntegralCumulation_def arith_defs)
  have x2: "exec (SetMaxIntegralCumulation 1) ?s = Some ?s"
    by (simp add: setMaxIntegralCumulation_def arith_defs)
  from integral_cap [OF r] x1
  have k: "integralCumulation (?s\<lparr>maxCumulation := 50000\<rparr>) = integralCumulation ?s"
    by blast
  have "run ([Tick (- 100) 0] @ [SetMaxIntegralCumulation (- 50000)]) ?c
          = Some (?s\<lparr>maxCumulation := 50000\<rparr>)"
    by (rule run_append_Some [OF r]) (simp only: run.simps x1 option.case)
  then have c6: "run [Tick (- 100) 0, SetMaxIntegralCumulation (- 50000)] ?c
          = Some (?s\<lparr>maxCumulation := 50000\<rparr>)"
    by (simp only: append.simps)
  have "run ([Tick (- 100) 0] @ [SetMaxIntegralCumulation 1]) ?c = Some ?s"
    by (rule run_append_Some [OF r]) (simp only: run.simps x2 option.case)
  then have c7: "run [Tick (- 100) 0, SetMaxIntegralCumulation 1] ?c = Some ?s"
    by (simp only: append.simps)
  from r n c3 c4 c5 c6 c7 k show ?thesis by simp
qed

text \<open>
  C4 as stated fails: after one tick with feedback -100 the integral is 100, and
  \<open>setMaxIntegralCumulation(2)\<close> then leaves the controller with a cap of 2 and an
  integral of 100.
\<close>

theorem integral_cap_counterexample:
  "run [Tick (- 100) 0, SetMaxIntegralCumulation 2] (PIDController_new (Finite 1) (Finite 0) (Finite 0) 11 12 0 0 13) =
     Some ((PIDController_new (Finite 1) (Finite 0) (Finite 0) 11 12 0 0 13)
        \<lparr> currentFeedback := - 100, lastFeedback := - 100, error := 100, lastError := 100,
          integralCumulation := 100, cycleDerivative := 100, output := 100,
          maxCumulation := 2 \<rparr>)
   \<and> map_option integralCumulation
       (run [Tick (- 100) 0, SetMaxIntegralCumulation 2] (PIDController_new (Finite 1) (Finite 0) (Finite 0) 11 12 0 0 13))
       = Some 100
   \<and> map_option maxCumulation
       (run [Tick (- 100) 0, SetMaxIntegralCumulation 2] (PIDController_new (Finite 1) (Finite 0) (Finite 0) 11 12 0 0 13))
       = Some 2
   \<and> map_option withinCap
       (run [Tick (- 100) 0, SetMaxIntegralCumulation 2] (PIDController_new (Finite 1) (Finite 0) (Finite 0) 11 12 0 0 13))
       = Some False"
  by (simp add: PIDController_new_def setter_defs tick_defs arith_defs floating_defs withinCap_def)

section \<open>The representation of the wrapped error at \<open>T = float\<close>\<close>

text \<open>
  C5, where the code departs from it. In \<open>PIDController<float>\<close> with wrap bounds
  0 and 360, target 0.5 and feedback 0, the direct error 0.5 has the smallest absolute
  value of the three candidates (the others are 360.5 and 359.5). Computed in
  \<open>float\<close> the error would be 0.5; the candidates are \<open>int\<close> locals, so the tick
  sets \<open>error\<close> to 0. The locals are \<open>int\<close> in every instantiation, so the same
  happens in \<open>PIDController<double>\<close>.
\<close>

theorem wrappedError_float_truncates:
  "wrappedError_float (Finite (1/2)) (Finite 0) (Finite 0) (Finite 360) (Finite 0)
     = Some (Finite 0)
   \<and> float_sub (Finite (1/2)) (Finite 0) = Finite (1/2)
   \<and> float_add (float_sub (Finite (1/2)) (Finite 0)) (float_sub (Finite 360) (Finite 0))
       = Finite (721/2)
   \<and> float_add (float_sub (Finite 360) (Finite (1/2))) (float_sub (Finite 0) (Finite 0))
       = Finite (719/2)"
  by (simp add: wrappedError_float_def selectError_def arith_defs floating_defs)

section \<open>The output of a tick\<close>






section \<open>Enabling and disabling\<close>

text \<open>
  C7. On an enabled controller \<open>setEnabled(false)\<close> sets \<open>output\<close> and
  \<open>integralCumulation\<close> to zero (and changes nothing else but the flag), whatever
  the ticks before it left there. A following \<open>setEnabled(true)\<close> gives the state
  before the two calls with \<open>output\<close> and \<open>integralCumulation\<close> zero: the old values
  are not restored and nothing else is reset.
\<close>

theorem setEnabled_false_resets:
  assumes "enabled s"
  shows "output (setEnabled False s) = 0
       \<and> integralCumulation (setEnabled False s) = 0
       \<and> setEnabled False s = s\<lparr>output := 0, integralCumulation := 0, enabled := False\<rparr>
       \<and> setEnabled True (setEnabled False s) = s\<lparr>output := 0, integralCumulation := 0\<rparr>"
  using assms by (simp add: setEnabled_def)

text \<open>
  An instance of C7: with target 5 and feedback 0 one tick leaves
  output 5 and integral 5; after disabling, and after enabling again, both are 0.
\<close>

theorem setEnabled_false_resets_witness:
  "run [SetTarget 5, Tick 0 0] (PIDController_new (Finite 1) (Finite 0) (Finite 0) 11 12 0 0 13) =
     Some ((PIDController_new (Finite 1) (Finite 0) (Finite 0) 11 12 0 0 13)
        \<lparr> target := 5, error := 5, lastError := 5, integralCumulation := 5,
          cycleDerivative := 5, output := 5 \<rparr>)
   \<and> run [SetTarget 5, Tick 0 0, SetEnabled False] (PIDController_new (Finite 1) (Finite 0) (Finite 0) 11 12 0 0 13) =
     Some ((PIDController_new (Finite 1) (Finite 0) (Finite 0) 11 12 0 0 13)
        \<lparr> target := 5, error := 5, lastError := 5, integralCumulation := 0,
          cycleDerivative := 5, output := 0, enabled := False \<rparr>)
   \<and> run [SetTarget 5, Tick 0 0, SetEnabled False, SetEnabled True]
        (PIDController_new (Finite 1) (Finite 0) (Finite 0) 11 12 0 0 13) =
     Some ((PIDController_new (Finite 1) (Finite 0) (Finite 0) 11 12 0 0 13)
        \<lparr> target := 5, error := 5, lastError := 5, integralCumulation := 0,
          cycleDerivative := 5, output := 0 \<rparr>)"
proof -
  let ?c = "PIDController_new (Finite 1) (Finite 0) (Finite 0) 11 12 0 0 13"
  let ?s = "?c\<lparr> target := 5, error := 5, lastError := 5, integralCumulation := 5,
                cycleDerivative := 5, output := 5 \<rparr>"
  have r: "run [SetTarget 5, Tick 0 0] ?c = Some ?s"
    by (simp add: PIDController_new_def setTarget_def tick_defs arith_defs floating_defs)
  have e: "enabled ?s" by (simp add: PIDController_new_def)
  have r1: "run [SetTarget 5, Tick 0 0, SetEnabled False] ?c = Some (setEnabled False ?s)"
    using run_append [of "[SetTarget 5, Tick 0 0]" "[SetEnabled False]" ?c]
    unfolding r by simp
  have r2: "run [SetTarget 5, Tick 0 0, SetEnabled False, SetEnabled True] ?c =
      Some (setEnabled True (setEnabled False ?s))"
    using run_append [of "[SetTarget 5, Tick 0 0]" "[SetEnabled False, SetEnabled True]" ?c]
    unfolding r by simp
  note z = setEnabled_false_resets [OF e]
  from z have z2: "setEnabled False ?s =
      ?s\<lparr>output := 0, integralCumulation := 0, enabled := False\<rparr>"
    by blast
  from z have z3: "setEnabled True (setEnabled False ?s) =
      ?s\<lparr>output := 0, integralCumulation := 0\<rparr>"
    by blast
  have c2: "run [SetTarget 5, Tick 0 0, SetEnabled False] ?c =
     Some (?c\<lparr> target := 5, error := 5, lastError := 5, integralCumulation := 0,
              cycleDerivative := 5, output := 0, enabled := False \<rparr>)"
    unfolding r1 z2 by (simp add: PIDController_new_def)
  have c3: "run [SetTarget 5, Tick 0 0, SetEnabled False, SetEnabled True] ?c =
     Some (?c\<lparr> target := 5, error := 5, lastError := 5, integralCumulation := 0,
              cycleDerivative := 5, output := 0 \<rparr>)"
    unfolding r2 z3 by (simp add: PIDController_new_def)
  from r c2 c3 show ?thesis by blast
qed

section \<open>The bound setters\<close>

text \<open>
  C8. A call of \<open>setInputBounds(lower, upper)\<close> or \<open>setOutputBounds(lower, upper)\<close>
  with \<open>upper \<le> lower\<close> returns the controller as it was (the setters return nothing,
  so no error is reported); a call with \<open>upper > lower\<close> stores both values and sets
  the corresponding flag, and changes nothing else.
\<close>

theorem bound_setters_guard:
  "(upper \<le> lower \<longrightarrow>
      setInputBounds lower upper s = s \<and> setOutputBounds lower upper s = s)
   \<and> (lower < upper \<longrightarrow>
      setInputBounds lower upper s =
        s\<lparr>inputBounded := True, inputUpperBound := upper, inputLowerBound := lower\<rparr>
      \<and> setOutputBounds lower upper s =
        s\<lparr>outputBounded := True, outputLowerBound := lower, outputUpperBound := upper\<rparr>)"
  by (simp add: setInputBounds_def setOutputBounds_def)

text \<open>
  Instances of C8: bounds (100, 50) are ignored on a controller whose
  bounds are (-100, 100), and the bounds (-100, 100) were stored on a fresh one.
\<close>

theorem bound_setters_guard_witness:
  "(50::int) \<le> 100
   \<and> setOutputBounds 100 50 (setOutputBounds (- 100) 100 (PIDController_new (Finite 1) (Finite 0) (Finite 0) 11 12 0 0 13))
       = setOutputBounds (- 100) 100 (PIDController_new (Finite 1) (Finite 0) (Finite 0) 11 12 0 0 13)
   \<and> setInputBounds 100 50 (setInputBounds (- 100) 100 (PIDController_new (Finite 1) (Finite 0) (Finite 0) 11 12 0 0 13))
       = setInputBounds (- 100) 100 (PIDController_new (Finite 1) (Finite 0) (Finite 0) 11 12 0 0 13)
   \<and> (- 100 :: int) < 100
   \<and> outputBounded (setOutputBounds (- 100) 100 (PIDController_new (Finite 1) (Finite 0) (Finite 0) 11 12 0 0 13))
   \<and> outputLowerBound (setOutputBounds (- 100) 100 (PIDController_new (Finite 1) (Finite 0) (Finite 0) 11 12 0 0 13))
       = - 100
   \<and> outputUpperBound (setOutputBounds (- 100) 100 (PIDController_new (Finite 1) (Finite 0) (Finite 0) 11 12 0 0 13))
       = 100
   \<and> inputBounded (setInputBounds (- 100) 100 (PIDController_new (Finite 1) (Finite 0) (Finite 0) 11 12 0 0 13))
   \<and> inputLowerBound (setInputBounds (- 100) 100 (PIDController_new (Finite 1) (Finite 0) (Finite 0) 11 12 0 0 13))
       = - 100
   \<and> inputUpperBound (setInputBounds (- 100) 100 (PIDController_new (Finite 1) (Finite 0) (Finite 0) 11 12 0 0 13))
       = 100"
  using
    bound_setters_guard [of 50 100
      "setOutputBounds (- 100) 100 (PIDController_new (Finite 1) (Finite 0) (Finite 0) 11 12 0 0 13)"]
    bound_setters_guard [of 50 100
      "setInputBounds (- 100) 100 (PIDController_new (Finite 1) (Finite 0) (Finite 0) 11 12 0 0 13)"]
    bound_setters_guard [of 100 "- 100" "PIDController_new (Finite 1) (Finite 0) (Finite 0) 11 12 0 0 13"]
  by simp

section \<open>Bound flags without bounds\<close>

lemma exec_boundsZero:
  assumes "exec op s = Some s'" and "\<not> boundSetterSucceeds op" and "boundsZero s"
  shows "boundsZero s'"
proof (cases op)
  case (Tick fb now)
  with assms obtain outs where "tick s fb now = Some (s', outs)" by auto
  from tick_unchanged [OF this] assms(3) show ?thesis by (simp add: boundsZero_def)
qed (use assms in \<open>auto simp: setter_defs boundsZero_def split: if_splits Option.bind_splits\<close>)

lemma run_boundsZero:
  "run ops s = Some s' \<Longrightarrow> \<not> list_ex boundSetterSucceeds ops \<Longrightarrow> boundsZero s \<Longrightarrow>
   boundsZero s'"
proof (induction ops arbitrary: s)
  case Nil
  then show ?case by simp
next
  case (Cons op ops)
  from Cons.prems obtain s1 where e: "exec op s = Some s1" and r: "run ops s1 = Some s'"
    by (auto split: option.splits)
  from Cons.prems have n: "\<not> boundSetterSucceeds op" "\<not> list_ex boundSetterSucceeds ops"
    by simp_all
  from Cons.IH [OF r n(2) exec_boundsZero [OF e n(1) Cons.prems(3)]] show ?case .
qed

text \<open>
  C9. Take a constructed controller and any sequence of operations in which no bound
  setter passes its guard, ending in a state \<open>s\<close>. \<open>setInputBounded(true)\<close> and
  \<open>setOutputBounded(true)\<close> set their flag without a check and leave the bound values
  at zero. Every enabled tick in a state \<open>s\<close> whose input flag is set leaves
  \<open>currentFeedback\<close> at exactly 0, and every enabled tick in a state whose output
  flag is set leaves \<open>output\<close> at exactly 0 and hands 0 to the output callback.
\<close>

theorem default_bounds_force_zero:
  assumes "run ops (PIDController_new p i d src out wrapLo wrapHi timeFn) = Some s"
    and "\<not> list_ex boundSetterSucceeds ops"
  shows "boundsZero s
       \<and> inputBounded (setInputBounded True s) \<and> boundsZero (setInputBounded True s)
       \<and> outputBounded (setOutputBounded True s) \<and> boundsZero (setOutputBounded True s)
       \<and> (\<forall>feedback now s' outs.
            enabled s \<longrightarrow> tick s feedback now = Some (s', outs) \<longrightarrow>
              (inputBounded s \<longrightarrow> currentFeedback s' = 0)
              \<and> (outputBounded s \<longrightarrow> output s' = 0 \<and> outs = [0]))"
proof -
  have "boundsZero (PIDController_new p i d src out wrapLo wrapHi timeFn)"
    by (simp add: boundsZero_def PIDController_new_def)
  from run_boundsZero [OF assms this] have z: "boundsZero s" .
  have t: "(inputBounded s \<longrightarrow> currentFeedback s' = 0)
         \<and> (outputBounded s \<longrightarrow> output s' = 0 \<and> outs = [0])"
    if "enabled s" and "tick s feedback now = Some (s', outs)" for feedback now s' outs
    by (rule tick_enabled_cases [OF that])
       (use z in \<open>auto simp: boundsZero_def boundInput_def boundOutput_def Let_def\<close>)
  from z t show ?thesis
    by (simp add: setInputBounded_def setOutputBounded_def boundsZero_def)
qed

text \<open>
  An instance of C9: target 9, both flags set on a fresh
  controller, then a tick with feedback 57. The feedback is stored as 0, the error is
  9, and the output, 9 before trimming, is 0.
\<close>

theorem default_bounds_force_zero_witness:
  "run [SetTarget 9, SetInputBounded True, SetOutputBounded True]
       (PIDController_new (Finite 1) (Finite 0) (Finite 0) 11 12 0 0 13) =
     Some ((PIDController_new (Finite 1) (Finite 0) (Finite 0) 11 12 0 0 13)
        \<lparr> target := 9, inputBounded := True, outputBounded := True \<rparr>)
   \<and> \<not> list_ex boundSetterSucceeds [SetTarget 9, SetInputBounded True, SetOutputBounded True]
   \<and> tick ((PIDController_new (Finite 1) (Finite 0) (Finite 0) 11 12 0 0 13)
        \<lparr> target := 9, inputBounded := True, outputBounded := True \<rparr>) 57 0 =
       Some ((PIDController_new (Finite 1) (Finite 0) (Finite 0) 11 12 0 0 13)
          \<lparr> target := 9, inputBounded := True, outputBounded := True,
            currentFeedback := 0, error := 9, lastError := 9, integralCumulation := 9,
            cycleDerivative := 9, output := 0 \<rparr>, [0])"
proof -
  let ?c = "PIDController_new (Finite 1) (Finite 0) (Finite 0) 11 12 0 0 13"
  let ?s = "?c\<lparr> target := 9, inputBounded := True, outputBounded := True \<rparr>"
  let ?s' = "?c\<lparr> target := 9, inputBounded := True, outputBounded := True,
            currentFeedback := 0, error := 9, lastError := 9, integralCumulation := 9,
            cycleDerivative := 9, output := 0 \<rparr>"
  have r: "run [SetTarget 9, SetInputBounded True, SetOutputBounded True] ?c = Some ?s"
    by (simp add: setter_defs)
  have n: "\<not> list_ex boundSetterSucceeds
             [SetTarget 9, SetInputBounded True, SetOutputBounded True]"
    by simp
  have f: "enabled ?s" "inputBounded ?s" "outputBounded ?s"
    by (simp_all add: PIDController_new_def)
  have "\<exists>s' outs. tick ?s 57 0 = Some (s', outs)"
    by (simp add: PIDController_new_def tick_defs arith_defs floating_defs)
  then obtain s' outs where t: "tick ?s 57 0 = Some (s', outs)" by blast
  from default_bounds_force_zero [OF r n] f t
  have k: "currentFeedback s' = 0" "output s' = 0" "outs = [0]" by blast+
  have "tick ?s 57 0 = Some (?s', [0])"
    by (simp add: PIDController_new_def tick_defs arith_defs floating_defs)
  with r n show ?thesis using k t by blast
qed

section \<open>What a tick leaves unchanged\<close>

text \<open>
  C10. A tick, enabled or not, leaves the target, the three gains, the enabled flag,
  \<open>maxCumulation\<close>, every input, output and wrap bound value and flag,
  \<open>timeFunctionRegistered\<close> and the three callback pointers as they were. The state
  after it is the state before it with new values in \<open>currentFeedback\<close>,
  \<open>lastFeedback\<close>, \<open>error\<close>, \<open>lastError\<close>, \<open>integralCumulation\<close>,
  \<open>cycleDerivative\<close>, \<open>currentTime\<close>, \<open>lastTime\<close> and \<open>output\<close> at most.
\<close>

theorem tick_frame:
  assumes "tick s feedback now = Some (s', outs)"
  shows "target s' = target s \<and> pGain s' = pGain s \<and> iGain s' = iGain s
       \<and> dGain s' = dGain s \<and> enabled s' = enabled s
       \<and> maxCumulation s' = maxCumulation s
       \<and> inputBounded s' = inputBounded s
       \<and> inputLowerBound s' = inputLowerBound s \<and> inputUpperBound s' = inputUpperBound s
       \<and> outputBounded s' = outputBounded s
       \<and> outputLowerBound s' = outputLowerBound s
       \<and> outputUpperBound s' = outputUpperBound s
       \<and> feedbackWrapped s' = feedbackWrapped s
       \<and> feedbackWrapLowerBound s' = feedbackWrapLowerBound s
       \<and> feedbackWrapUpperBound s' = feedbackWrapUpperBound s
       \<and> timeFunctionRegistered s' = timeFunctionRegistered s
       \<and> pidSource s' = pidSource s \<and> pidOutput s' = pidOutput s
       \<and> getSystemTime s' = getSystemTime s
       \<and> s' = s\<lparr> currentFeedback := currentFeedback s', lastFeedback := lastFeedback s',
                  error := error s', lastError := lastError s',
                  integralCumulation := integralCumulation s',
                  cycleDerivative := cycleDerivative s',
                  currentTime := currentTime s', lastTime := lastTime s',
                  output := output s' \<rparr>"
proof (cases "enabled s")
  case False
  with assms have "s' = s" by (simp add: tick_def)
  then show ?thesis by simp
next
  case True
  show ?thesis
    by (rule tick_enabled_cases [OF True assms]) simp
qed

text \<open>
  Instances of C10: an enabled tick with a registered time function (target 7,
  feedback 5 at time 10), and a tick of the same controller once disabled.
\<close>

theorem tick_frame_witness:
  "tick (registerTimeFunction 14 (setTarget 7 (PIDController_new (Finite 1) (Finite 0) (Finite 0) 11 12 0 0 13))) 5 10 =
     Some ((PIDController_new (Finite 1) (Finite 0) (Finite 0) 11 12 0 0 13)
        \<lparr> target := 7, getSystemTime := 14, timeFunctionRegistered := True,
          currentFeedback := 5, lastFeedback := 5, error := 2, lastError := 2,
          integralCumulation := 10, cycleDerivative := 0,
          currentTime := 10, lastTime := 10, output := 2 \<rparr>, [2])
   \<and> tick (setEnabled False (PIDController_new (Finite 1) (Finite 0) (Finite 0) 11 12 0 0 13)) 5 10 =
     Some (setEnabled False (PIDController_new (Finite 1) (Finite 0) (Finite 0) 11 12 0 0 13), [])"
proof -
  let ?s = "registerTimeFunction 14 (setTarget 7 (PIDController_new (Finite 1) (Finite 0) (Finite 0) 11 12 0 0 13))"
  let ?d = "setEnabled False (PIDController_new (Finite 1) (Finite 0) (Finite 0) 11 12 0 0 13)"
  have "\<exists>s' outs. tick ?s 5 10 = Some (s', outs)"
    by (simp add: PIDController_new_def setter_defs tick_defs arith_defs floating_defs)
  then obtain s' outs where t: "tick ?s 5 10 = Some (s', outs)" by blast
  have "\<exists>d' outs. tick ?d 5 10 = Some (d', outs)"
    by (simp add: PIDController_new_def setter_defs tick_defs arith_defs floating_defs)
  then obtain d' douts where u: "tick ?d 5 10 = Some (d', douts)" by blast
  from tick_frame [OF t] have k: "target s' = target ?s" by blast
  from tick_frame [OF u] have l: "enabled d' = enabled ?d" by blast
  have a: "tick ?s 5 10 =
     Some ((PIDController_new (Finite 1) (Finite 0) (Finite 0) 11 12 0 0 13)
        \<lparr> target := 7, getSystemTime := 14, timeFunctionRegistered := True,
          currentFeedback := 5, lastFeedback := 5, error := 2, lastError := 2,
          integralCumulation := 10, cycleDerivative := 0,
          currentTime := 10, lastTime := 10, output := 2 \<rparr>, [2])"
    by (simp add: PIDController_new_def setter_defs tick_defs arith_defs floating_defs)
  have b: "tick ?d 5 10 = Some (?d, [])"
    by (simp add: PIDController_new_def setter_defs tick_def)
  from a b k l show ?thesis by blast
qed

end
